theory Spec2Isabelle
  imports Main "HOL-Library.AList"
begin

section \<open>Document values\<close>

text \<open>
  A document fetched from the store is a Python \<open>dict\<close> with string keys. Its values are
  the BSON values the driver decodes: \<open>None\<close>, booleans, integers, strings, \<open>ObjectId\<close>s,
  nested dicts and lists, and further driver types (\<open>datetime\<close>, \<open>Binary\<close>,
  \<open>Decimal128\<close>, ...) that the program never inspects; these are kept as \<open>Other\<close> with the
  name of their Python type.

  A double (a Python \<open>float\<close>) is \<open>nan\<close>, one of the two infinities, or finite. A finite
  double is given by what \<open>repr\<close> computes of it, the shortest decimal digits that read
  back as the same double: its sign, the digits \<open>d1 ... dn\<close> as the number \<open>m\<close> they spell,
  and the position \<open>decpt\<close> of the decimal point, the value being
  \<open>0.d1...dn * 10 ^ decpt\<close>. So 1.5 is \<open>Finite False 15 1\<close>, 0.001 is
  \<open>Finite False 1 (-2)\<close> and 1e16 is \<open>Finite False 1 17\<close>; with \<open>m = 0\<close> the value is zero.

  A dict keeps its insertion order and the order decides the text written to the file, so
  a dict is an association list, in the order of \<open>doc.items()\<close>.

  An \<open>ObjectId\<close> is given by its 24 digit hexadecimal form, as in \<open>ObjectId('5f...')\<close>;
  \<open>str\<close> of it is that text.
\<close>

datatype objectid = ObjectId string

datatype double = Finite bool nat int | NaN | Infinity | NegInfinity

datatype bson =
    Null
  | Boolean bool
  | Integer int
  | Double double
  | Str string
  | Oid objectid
  | Other string
  | Dict "(string \<times> bson) list"
  | Arr "bson list"

type_synonym document = "(string \<times> bson) list"

fun str_oid :: "objectid \<Rightarrow> string" where
  "str_oid (ObjectId h) = h"

section \<open>The identifier normalizer\<close>

text \<open>
  \<^verbatim>\<open>
  def convert_objectid_to_str(doc):
      for key, value in doc.items():
          if isinstance(value, ObjectId):
              doc[key] = str(value)
          elif isinstance(value, dict):
              convert_objectid_to_str(value)
          elif isinstance(value, list):
              for item in value:
                  if isinstance(item, dict):
                      convert_objectid_to_str(item)
      return doc
  \<close>
  The function mutates the dict and returns it; the model returns the dict after the
  call. \<open>convert_value\<close> is the body of the outer loop for one entry (what the entry's
  value is afterwards), \<open>convert_items\<close> is the inner loop over the items of a list.
\<close>

fun convert_objectid_to_str :: "document \<Rightarrow> document"
  and convert_value :: "bson \<Rightarrow> bson"
  and convert_items :: "bson list \<Rightarrow> bson list"
where
  "convert_objectid_to_str [] = []"
| "convert_objectid_to_str ((key, v) # rest) =
     (key, convert_value v) # convert_objectid_to_str rest"
| "convert_value (Oid i) = Str (str_oid i)"
| "convert_value (Dict d) = Dict (convert_objectid_to_str d)"
| "convert_value (Arr items) = Arr (convert_items items)"
| "convert_value v = v"
| "convert_items [] = []"
| "convert_items (Dict d # rest) = Dict (convert_objectid_to_str d) # convert_items rest"
| "convert_items (item # rest) = item # convert_items rest"

text \<open>
  The source assigns \<open>doc[key] = ...\<close> while it walks \<open>doc.items()\<close>. With the keys of a
  dict distinct, assigning to the key at hand replaces the value where it stands; this is
  the loop written with the assignments, to be compared with the function above.
\<close>

definition assign_loop :: "document \<Rightarrow> document" where
  "assign_loop doc = fold (\<lambda>(key, v) d. AList.update key (convert_value v) d) doc doc"

subsection \<open>Where identifiers are\<close>

text \<open>An \<open>ObjectId\<close> occurs somewhere in a value, in a document, in a list of values.\<close>

fun has_oid :: "bson \<Rightarrow> bool"
  and has_oid_doc :: "document \<Rightarrow> bool"
  and has_oid_list :: "bson list \<Rightarrow> bool"
where
  "has_oid (Oid i) = True"
| "has_oid (Dict d) = has_oid_doc d"
| "has_oid (Arr items) = has_oid_list items"
| "has_oid v = False"
| "has_oid_doc [] = False"
| "has_oid_doc ((key, v) # rest) = (has_oid v \<or> has_oid_doc rest)"
| "has_oid_list [] = False"
| "has_oid_list (item # rest) = (has_oid item \<or> has_oid_list rest)"

text \<open>
  \<open>same_but_ids v w\<close>: \<open>w\<close> is \<open>v\<close> except that, where \<open>v\<close> has an \<open>ObjectId\<close>, \<open>w\<close> has
  that identifier or its string. Keys, their order, the lengths of lists and every value
  that is not an identifier are the same on both sides.
\<close>

fun same_but_ids :: "bson \<Rightarrow> bson \<Rightarrow> bool"
  and same_but_ids_doc :: "document \<Rightarrow> document \<Rightarrow> bool"
  and same_but_ids_list :: "bson list \<Rightarrow> bson list \<Rightarrow> bool"
where
  "same_but_ids (Oid i) w = (w = Oid i \<or> w = Str (str_oid i))"
| "same_but_ids (Dict d) w = (case w of Dict e \<Rightarrow> same_but_ids_doc d e | _ \<Rightarrow> False)"
| "same_but_ids (Arr xs) w = (case w of Arr ys \<Rightarrow> same_but_ids_list xs ys | _ \<Rightarrow> False)"
| "same_but_ids v w = (w = v)"
| "same_but_ids_doc [] e = (e = [])"
| "same_but_ids_doc ((key, v) # rest) e =
     (case e of [] \<Rightarrow> False
      | (key', w) # rest' \<Rightarrow> key' = key \<and> same_but_ids v w \<and> same_but_ids_doc rest rest')"
| "same_but_ids_list [] ys = (ys = [])"
| "same_but_ids_list (x # xs) ys =
     (case ys of [] \<Rightarrow> False | y # ys' \<Rightarrow> same_but_ids x y \<and> same_but_ids_list xs ys')"

section \<open>Text: integers, paths, JSON\<close>

text \<open>
  Python's \<open>str\<close> of an integer (the f-strings and \<open>json.dumps\<close> use it): decimal digits,
  a leading minus sign for a negative number.
\<close>

definition digit_char :: "nat \<Rightarrow> char" where
  "digit_char n = ''0123456789abcdef'' ! (n mod 16)"

function str_nat :: "nat \<Rightarrow> string" where
  "str_nat n = (if n < 10 then [digit_char n] else str_nat (n div 10) @ [digit_char (n mod 10)])"
  by pat_completeness auto
termination
  by (relation "measure id") auto

declare str_nat.simps [simp del]

definition str_int :: "int \<Rightarrow> string" where
  "str_int i = (if i < 0 then CHR ''-'' # str_nat (nat (- i)) else str_nat (nat i))"

text \<open>\<open>sep.join(parts)\<close>.\<close>

fun join :: "string \<Rightarrow> string list \<Rightarrow> string" where
  "join sep [] = []"
| "join sep [x] = x"
| "join sep (x # y # ys) = x @ sep @ join sep (y # ys)"

text \<open>
  The paths are POSIX paths. \<open>os.path.basename(p)\<close> is \<open>p[p.rfind('/') + 1:]\<close>;
  \<open>s.rstrip('/')\<close> drops every slash at the end of \<open>s\<close>; \<open>os.path.join(a, b)\<close> is \<open>b\<close> when
  \<open>b\<close> starts with a slash, \<open>a + b\<close> when \<open>a\<close> is empty or ends with a slash, and
  \<open>a + '/' + b\<close> otherwise.
\<close>

definition basename :: "string \<Rightarrow> string" where
  "basename p = rev (takeWhile (\<lambda>c. c \<noteq> CHR ''/'') (rev p))"

definition rstrip_slash :: "string \<Rightarrow> string" where
  "rstrip_slash s = rev (dropWhile (\<lambda>c. c = CHR ''/'') (rev s))"

definition path_join :: "string \<Rightarrow> string \<Rightarrow> string" where
  "path_join a b =
     (if take 1 b = ''/'' then b
      else if a = [] \<or> last a = CHR ''/'' then a @ b
      else a @ ''/'' @ b)"

text \<open>
  The exceptions the program meets. \<open>TypeError\<close> is what \<open>json.dumps\<close> raises on a value it
  cannot encode; the first three are the ones \<open>upload_to_s3\<close> catches, reports and raises
  again; \<open>OtherError\<close> is any other exception of the store, the file system or the
  transfer, which nothing in the program catches.
\<close>

datatype exn =
    NoCredentialsError
  | PartialCredentialsError
  | ClientError string
  | TypeError string
  | OtherError string

text \<open>
  \<open>json.dumps(doc, ensure_ascii=False)\<close>, with the default separators \<open>', '\<close> and \<open>': '\<close>
  and no indentation. A string is written between double quotes with the backslash, the
  double quote and every character below \<open>0x20\<close> escaped (\<open>\b \f \n \r \t\<close> by their short
  forms, the others as \<open>\u00XX\<close>); every other character is written as it is.
\<close>

definition escape_char :: "char \<Rightarrow> string" where
  "escape_char c =
     (if c = CHR 0x5C then [CHR 0x5C, CHR 0x5C]
      else if c = CHR 0x22 then [CHR 0x5C, CHR 0x22]
      else if c = CHR 0x08 then [CHR 0x5C, CHR ''b'']
      else if c = CHR 0x0C then [CHR 0x5C, CHR ''f'']
      else if c = CHR 0x0A then [CHR 0x5C, CHR ''n'']
      else if c = CHR 0x0D then [CHR 0x5C, CHR ''r'']
      else if c = CHR 0x09 then [CHR 0x5C, CHR ''t'']
      else if (of_char c :: nat) < 0x20 then
        [CHR 0x5C, CHR ''u'', CHR ''0'', CHR ''0'',
         digit_char (of_char c div 16), digit_char (of_char c mod 16)]
      else [c])"

text \<open>
  A float is written by \<open>floatstr\<close> of \<open>json.encoder\<close>: \<open>NaN\<close>, \<open>Infinity\<close> and
  \<open>-Infinity\<close> for the three values that are not finite (\<open>allow_nan\<close> is left at its
  default, so they do not raise), and \<open>float.__repr__\<close> otherwise. \<open>repr\<close> writes the digits
  with an exponent when \<open>decpt \<le> -4\<close> or \<open>decpt > 16\<close> (one digit before the point, the
  exponent \<open>decpt - 1\<close> with its sign and at least two digits), and otherwise in positional
  form, with \<open>.0\<close> added to a whole number.
\<close>

definition pad2 :: "string \<Rightarrow> string" where
  "pad2 s = (if length s < 2 then ''0'' @ s else s)"

definition float_repr :: "bool \<Rightarrow> nat \<Rightarrow> int \<Rightarrow> string" where
  "float_repr neg m decpt =
     (let sg = (if neg then ''-'' else []);
          digits = str_nat m;
          n = int (length digits)
      in if m = 0 then sg @ ''0.0''
         else if decpt \<le> - 4 \<or> 16 < decpt then
           sg @ take 1 digits @ (if 1 < n then ''.'' @ drop 1 digits else []) @
           ''e'' @ (if decpt - 1 < 0 then ''-'' else ''+'') @ pad2 (str_nat (nat (abs (decpt - 1))))
         else if decpt \<le> 0 then sg @ ''0.'' @ replicate (nat (- decpt)) (CHR ''0'') @ digits
         else if decpt < n then sg @ take (nat decpt) digits @ ''.'' @ drop (nat decpt) digits
         else sg @ digits @ replicate (nat (decpt - n)) (CHR ''0'') @ ''.0'')"

fun floatstr :: "double \<Rightarrow> string" where
  "floatstr NaN = ''NaN''"
| "floatstr Infinity = ''Infinity''"
| "floatstr NegInfinity = ''-Infinity''"
| "floatstr (Finite neg m decpt) = float_repr neg m decpt"

definition encode_basestring :: "string \<Rightarrow> string" where
  "encode_basestring s = CHR 0x22 # concat (map escape_char s) @ [CHR 0x22]"

definition not_serializable :: "string \<Rightarrow> exn" where
  "not_serializable ty = TypeError (''Object of type '' @ ty @ '' is not JSON serializable'')"

fun json_dumps :: "bson \<Rightarrow> exn + string"
  and dumps_members :: "document \<Rightarrow> exn + string list"
  and dumps_elements :: "bson list \<Rightarrow> exn + string list"
where
  "json_dumps Null = Inr ''null''"
| "json_dumps (Boolean b) = Inr (if b then ''true'' else ''false'')"
| "json_dumps (Integer i) = Inr (str_int i)"
| "json_dumps (Double x) = Inr (floatstr x)"
| "json_dumps (Str s) = Inr (encode_basestring s)"
| "json_dumps (Oid i) = Inl (not_serializable ''ObjectId'')"
| "json_dumps (Other ty) = Inl (not_serializable ty)"
| "json_dumps (Dict d) =
     (case dumps_members d of
        Inl e \<Rightarrow> Inl e
      | Inr ms \<Rightarrow> Inr (''{'' @ join '', '' ms @ ''}''))"
| "json_dumps (Arr xs) =
     (case dumps_elements xs of
        Inl e \<Rightarrow> Inl e
      | Inr es \<Rightarrow> Inr (''['' @ join '', '' es @ '']''))"
| "dumps_members [] = Inr []"
| "dumps_members ((key, v) # rest) =
     (case json_dumps v of
        Inl e \<Rightarrow> Inl e
      | Inr s \<Rightarrow>
          (case dumps_members rest of
             Inl e \<Rightarrow> Inl e
           | Inr ms \<Rightarrow> Inr ((encode_basestring key @ '': '' @ s) # ms)))"
| "dumps_elements [] = Inr []"
| "dumps_elements (x # xs) =
     (case json_dumps x of
        Inl e \<Rightarrow> Inl e
      | Inr s \<Rightarrow>
          (case dumps_elements xs of
             Inl e \<Rightarrow> Inl e
           | Inr es \<Rightarrow> Inr (s # es)))"



subsection \<open>JSON texts\<close>


definition is_digit :: "char \<Rightarrow> bool" where
  "is_digit c = (c \<in> set ''0123456789'')"

















section \<open>The world the run acts on\<close>

text \<open>
  What the program does to the outside is recorded in a state: the local files it writes
  (path to contents), the objects in the buckets (bucket and key to contents), and the log
  of its calls and messages in the order they happen. The document store and the transfer
  service answer through the environment: \<open>find_all\<close> is \<open>list(coll.find({}))\<close>, which
  returns the documents of a collection or raises; \<open>upload_fault\<close> says whether
  \<open>cli.upload_file\<close> raises. Both may depend on what has happened so far. Creating the
  directory, building the clients and writing a local file are taken to succeed.
\<close>

datatype event =
    Stdout string
  | Stderr string
  | MakeDirs string
  | MongoClient string
  | Find string string
  | Boto3Client string
  | UploadFile string string string

record state =
  files :: "string \<rightharpoonup> string"
  objects :: "string \<times> string \<rightharpoonup> string"
  log :: "event list"

record env =
  find_all :: "state \<Rightarrow> string \<Rightarrow> string \<Rightarrow> exn + document list"
  upload_fault :: "state \<Rightarrow> string \<Rightarrow> string \<Rightarrow> string \<Rightarrow> exn option"

text \<open>The module's globals, read from the process environment when it is loaded.\<close>

record config =
  MONGO_HOST :: string
  MONGO_PORT :: int
  MONGO_DB :: string
  MONGO_USER :: string
  MONGO_PASSWORD :: string
  MONGO_AUTH_DB :: string
  COLLECTIONS :: "string list"
  OUTPUT_DIR :: string
  S3_BUCKET :: string
  S3_PREFIX :: string
  AWS_REGION :: string
  TIMESTAMP :: string

definition emit :: "event \<Rightarrow> state \<Rightarrow> state" where
  "emit ev st = st\<lparr>log := log st @ [ev]\<rparr>"

text \<open>The upload attempts of a log: local path, bucket and key of each, in order.\<close>

fun uploads :: "event list \<Rightarrow> (string \<times> string \<times> string) list" where
  "uploads [] = []"
| "uploads (UploadFile p b k # evs) = (p, b, k) # uploads evs"
| "uploads (ev # evs) = uploads evs"

text \<open>The calls to the document store of a log: building the client and every fetch.\<close>

fun store_calls :: "event list \<Rightarrow> event list" where
  "store_calls [] = []"
| "store_calls (MongoClient uri # evs) = MongoClient uri # store_calls evs"
| "store_calls (Find db c # evs) = Find db c # store_calls evs"
| "store_calls (ev # evs) = store_calls evs"

section \<open>The program\<close>

definition ensure_output_dir :: "string \<Rightarrow> state \<Rightarrow> state" where
  "ensure_output_dir path st = emit (MakeDirs path) st"

definition get_client :: "config \<Rightarrow> state \<Rightarrow> state" where
  "get_client cfg st =
     (let uri =
        (if MONGO_USER cfg \<noteq> [] \<and> MONGO_PASSWORD cfg \<noteq> [] then
           ''mongodb://'' @ MONGO_USER cfg @ '':'' @ MONGO_PASSWORD cfg @ ''@'' @
           MONGO_HOST cfg @ '':'' @ str_int (MONGO_PORT cfg) @ ''/?authSource='' @
           MONGO_AUTH_DB cfg
         else ''mongodb://'' @ MONGO_HOST cfg @ '':'' @ str_int (MONGO_PORT cfg) @ ''/'')
      in emit (MongoClient uri) st)"

text \<open>The messages; the accented letters are their UTF-8 bytes.\<close>

definition warn_empty :: "string \<Rightarrow> string" where
  "warn_empty collection_name =
     ''[WARN] La colecci'' @ [CHR 0xC3, CHR 0xB3] @ ''n '' @ [CHR 0x27] @ collection_name @
     [CHR 0x27] @ '' est'' @ [CHR 0xC3, CHR 0xA1] @ '' vac'' @ [CHR 0xC3, CHR 0xAD] @
     ''a. Se omite.''"

definition ok_exported :: "string \<Rightarrow> string \<Rightarrow> nat \<Rightarrow> string" where
  "ok_exported collection_name out_path n =
     ''[OK] '' @ collection_name @ '' -> '' @ out_path @ '' ('' @ str_nat n @ '' documentos)''"

definition msg_missing_env :: string where
  "msg_missing_env = ''Faltan variables de entorno obligatorias: MONGO_DB y COLLECTIONS.''"

definition msg_missing_bucket :: string where
  "msg_missing_bucket = ''Falta S3_BUCKET.''"

definition msg_nothing_exported :: string where
  "msg_nothing_exported =
     ''[INFO] No se export'' @ [CHR 0xC3, CHR 0xB3] @ '' ninguna colecci'' @
     [CHR 0xC3, CHR 0xB3] @ ''n. Revisa nombres y permisos.''"

definition msg_no_credentials :: string where
  "msg_no_credentials = ''[ERROR] Credenciales de AWS no encontradas o incompletas.''"

text \<open>
  \<^verbatim>\<open>
      with open(out_path, "w", encoding="utf-8") as f:
          for doc in docs:
              doc = convert_objectid_to_str(doc)
              f.write(json.dumps(doc, ensure_ascii=False) + "\n")
  \<close>
  \<open>open_w\<close> creates the file or empties it; \<open>write_docs\<close> is the loop. \<open>json.dumps\<close> runs
  before \<open>f.write\<close>: when it raises nothing of that document is written, the \<open>with\<close>
  closes the file with what was written before, and the exception goes on.
\<close>

definition open_w :: "string \<Rightarrow> state \<Rightarrow> state" where
  "open_w path st = st\<lparr>files := (files st)(path \<mapsto> [])\<rparr>"

definition f_write :: "string \<Rightarrow> string \<Rightarrow> state \<Rightarrow> state" where
  "f_write path text st =
     st\<lparr>files := (files st)(path \<mapsto> (case files st path of None \<Rightarrow> [] | Some old \<Rightarrow> old) @ text)\<rparr>"

fun write_docs :: "string \<Rightarrow> document list \<Rightarrow> state \<Rightarrow> (exn + unit) \<times> state" where
  "write_docs path [] st = (Inr (), st)"
| "write_docs path (doc # docs) st =
     (case json_dumps (Dict (convert_objectid_to_str doc)) of
        Inl e \<Rightarrow> (Inl e, st)
      | Inr line \<Rightarrow> write_docs path docs (f_write path (line @ [CHR 0x0A]) st))"

definition export_collection_to_ndjson ::
  "env \<Rightarrow> config \<Rightarrow> string \<Rightarrow> string \<Rightarrow> state \<Rightarrow> (exn + string) \<times> state" where
  "export_collection_to_ndjson world cfg collection_name out_dir st =
     (let st1 = emit (Find (MONGO_DB cfg) collection_name) st in
      case find_all world st (MONGO_DB cfg) collection_name of
        Inl e \<Rightarrow> (Inl e, st1)
      | Inr docs \<Rightarrow>
          if docs = [] then (Inr [], emit (Stdout (warn_empty collection_name)) st1)
          else
            let filename = collection_name @ ''_'' @ TIMESTAMP cfg @ ''.ndjson'';
                out_path = path_join out_dir filename
            in case write_docs out_path docs (open_w out_path st1) of
                 (Inl e, st2) \<Rightarrow> (Inl e, st2)
               | (Inr u, st2) \<Rightarrow>
                   (Inr out_path,
                    emit (Stdout (ok_exported collection_name out_path (length docs))) st2))"

text \<open>
  What the exporter hands back to its caller. The source returns a \<open>str\<close>: its annotation
  is \<open>-> str\<close> and its two return statements are \<open>return ""\<close> and \<open>return out_path\<close>.
  The data model of the specification describes an export result with three fields, the
  collection name, the output path and the document count; \<open>ExportResult\<close> is a value of
  that shape, to compare with. \<open>result_count\<close> reads the count of a returned value when
  it has one.
\<close>

datatype returned = PyStr string | ExportResult string string nat

definition returned_value :: "(exn + string) \<times> state \<Rightarrow> returned option" where
  "returned_value r = (case fst r of Inl e \<Rightarrow> None | Inr path \<Rightarrow> Some (PyStr path))"

fun result_path :: "returned \<Rightarrow> string" where
  "result_path (PyStr path) = path"
| "result_path (ExportResult coll path n) = path"

fun result_count :: "returned \<Rightarrow> nat option" where
  "result_count (PyStr path) = None"
| "result_count (ExportResult coll path n) = Some n"

text \<open>
  \<^verbatim>\<open>
      key = os.path.basename(local_path)
      if prefix:
          key = f"{prefix.rstrip('/')}/{key}"
  \<close>
  \<open>prefix\<close> is an \<open>Optional[str]\<close>: \<open>None\<close> and the empty string are both false.
\<close>

definition upload_key :: "string \<Rightarrow> string option \<Rightarrow> string" where
  "upload_key local_path prefix =
     (let key = basename local_path in
      case prefix of
        None \<Rightarrow> key
      | Some p \<Rightarrow> if p \<noteq> [] then rstrip_slash p @ ''/'' @ key else key)"

text \<open>
  \<open>cli.upload_file(local_path, bucket, key)\<close> raises or not: it raises when the local
  file is not there, and otherwise when the transfer service says so.
\<close>

definition upload_file :: "env \<Rightarrow> state \<Rightarrow> string \<Rightarrow> string \<Rightarrow> string \<Rightarrow> exn option" where
  "upload_file world st local_path bucket key =
     (case files st local_path of
        None \<Rightarrow> Some (OtherError ''FileNotFoundError'')
      | Some contents \<Rightarrow> upload_fault world st local_path bucket key)"

text \<open>
  The rest of \<open>upload_to_s3\<close>. A transfer that succeeds stores the contents of the local
  file under the key. The two credential errors and \<open>ClientError\<close> are reported on stderr
  and raised again; any other exception passes through unreported.
\<close>

definition upload_to_s3 ::
  "env \<Rightarrow> config \<Rightarrow> string \<Rightarrow> string \<Rightarrow> string option \<Rightarrow> state \<Rightarrow> (exn + string) \<times> state" where
  "upload_to_s3 world cfg local_path bucket prefix st =
     (let key = upload_key local_path prefix;
          st1 = emit (Boto3Client (AWS_REGION cfg)) st;
          st2 = emit (UploadFile local_path bucket key) st1
      in case upload_file world st local_path bucket key of
           Some NoCredentialsError \<Rightarrow>
             (Inl NoCredentialsError, emit (Stderr msg_no_credentials) st2)
         | Some PartialCredentialsError \<Rightarrow>
             (Inl PartialCredentialsError, emit (Stderr msg_no_credentials) st2)
         | Some (ClientError m) \<Rightarrow>
             (Inl (ClientError m), emit (Stderr (''[ERROR] Fallo subiendo a S3: '' @ m)) st2)
         | Some e \<Rightarrow> (Inl e, st2)
         | None \<Rightarrow>
             (Inr key,
              emit (Stdout (''[OK] Subido a s3://'' @ bucket @ ''/'' @ key))
                (st2\<lparr>objects := (objects st2)((bucket, key) \<mapsto>
                   (case files st local_path of None \<Rightarrow> [] | Some contents \<Rightarrow> contents))\<rparr>)))"

text \<open>
  The two loops of \<open>main\<close>. \<open>export_loop\<close> is
  \<^verbatim>\<open>
      for coll in COLLECTIONS:
          path = export_collection_to_ndjson(client, coll, OUTPUT_DIR)
          if path:
              exported_files.append(path)
  \<close>
  with \<open>exported_files\<close> as the accumulator, and \<open>upload_loop\<close> is
  \<^verbatim>\<open>
      for path in exported_files:
          upload_to_s3(path, S3_BUCKET, S3_PREFIX)
  \<close>
  An exception raised in the body ends the loop and leaves \<open>main\<close>.
\<close>

fun export_loop ::
  "env \<Rightarrow> config \<Rightarrow> string list \<Rightarrow> string list \<Rightarrow> state \<Rightarrow> (exn + string list) \<times> state" where
  "export_loop world cfg [] exported_files st = (Inr exported_files, st)"
| "export_loop world cfg (coll # rest) exported_files st =
     (case export_collection_to_ndjson world cfg coll (OUTPUT_DIR cfg) st of
        (Inl e, st1) \<Rightarrow> (Inl e, st1)
      | (Inr path, st1) \<Rightarrow>
          export_loop world cfg rest
            (if path \<noteq> [] then exported_files @ [path] else exported_files) st1)"

fun upload_loop :: "env \<Rightarrow> config \<Rightarrow> string list \<Rightarrow> state \<Rightarrow> (exn + unit) \<times> state" where
  "upload_loop world cfg [] st = (Inr (), st)"
| "upload_loop world cfg (path # rest) st =
     (case upload_to_s3 world cfg path (S3_BUCKET cfg) (Some (S3_PREFIX cfg)) st of
        (Inl e, st1) \<Rightarrow> (Inl e, st1)
      | (Inr key, st1) \<Rightarrow> upload_loop world cfg rest st1)"

text \<open>
  How \<open>main\<close> ends: it returns, it calls \<open>sys.exit(n)\<close>, or an exception leaves it. The
  exit status of the process is 0 in the first case and \<open>n\<close> in the second; an exception
  nobody catches ends the interpreter with status 1.
\<close>

datatype outcome = Completed | SysExit nat | Raised exn

fun exit_status :: "outcome \<Rightarrow> nat" where
  "exit_status Completed = 0"
| "exit_status (SysExit n) = n"
| "exit_status (Raised e) = 1"

definition main :: "env \<Rightarrow> config \<Rightarrow> state \<Rightarrow> outcome \<times> state" where
  "main world cfg st =
     (if MONGO_DB cfg = [] \<or> COLLECTIONS cfg = [] then
        (SysExit 1, emit (Stderr msg_missing_env) st)
      else if S3_BUCKET cfg = [] then
        (SysExit 1, emit (Stderr msg_missing_bucket) st)
      else
        let st1 = ensure_output_dir (OUTPUT_DIR cfg) st;
            st2 = get_client cfg st1
        in case export_loop world cfg (COLLECTIONS cfg) [] st2 of
             (Inl e, st3) \<Rightarrow> (Raised e, st3)
           | (Inr exported_files, st3) \<Rightarrow>
               if exported_files = [] then
                 (SysExit 2, emit (Stderr msg_nothing_exported) st3)
               else
                 (case upload_loop world cfg exported_files st3 of
                    (Inl e, st4) \<Rightarrow> (Raised e, st4)
                  | (Inr u, st4) \<Rightarrow>
                      (Completed, emit (Stdout ''[DONE] Ingesta completada.'') st4)))"

section \<open>Sample runs\<close>

text \<open>
  A configuration, an empty initial state, and worlds whose store and transfer service
  answer by collection name and by local path; the theorems below are instantiated at
  them.
\<close>

definition sample_config :: config where
  "sample_config =
     \<lparr>MONGO_HOST = ''localhost'', MONGO_PORT = 27017, MONGO_DB = ''shop'', MONGO_USER = [],
      MONGO_PASSWORD = [], MONGO_AUTH_DB = ''admin'', COLLECTIONS = [''users'', ''orders''],
      OUTPUT_DIR = ''/app/out'', S3_BUCKET = ''lake'', S3_PREFIX = ''backups/'',
      AWS_REGION = ''us-east-1'', TIMESTAMP = ''20240101T000000Z''\<rparr>"

definition fresh :: state where
  "fresh = \<lparr>files = Map.empty, objects = Map.empty, log = []\<rparr>"

definition sample_world :: "(string \<Rightarrow> exn + document list) \<Rightarrow> (string \<Rightarrow> exn option) \<Rightarrow> env" where
  "sample_world store faults =
     \<lparr>find_all = (\<lambda>st db coll. store coll), upload_fault = (\<lambda>st path bucket key. faults path)\<rparr>"

definition empty_store :: "string \<Rightarrow> exn + document list" where
  "empty_store coll = Inr []"

definition sample_store :: "string \<Rightarrow> exn + document list" where
  "sample_store coll =
     (if coll = ''users'' then Inr [[(''_id'', Oid (ObjectId ''65a1'')), (''n'', Integer 1)]]
      else if coll = ''orders'' then Inr [[(''k'', Str ''v'')]]
      else Inr [])"

definition broken_store :: "string \<Rightarrow> exn + document list" where
  "broken_store coll =
     (if coll = ''users'' then
        Inr [[(''n'', Integer 1)], [(''ids'', Arr [Oid (ObjectId ''65a2'')])], [(''n'', Integer 3)]]
      else Inr [])"

definition no_fault :: "string \<Rightarrow> exn option" where
  "no_fault path = None"

definition orders_denied :: "string \<Rightarrow> exn option" where
  "orders_denied path =
     (if path = ''/app/out/orders_20240101T000000Z.ndjson'' then Some (ClientError ''AccessDenied'')
      else None)"




section \<open>Properties of the normalizer\<close>

lemma convert_fixpoint:
  "convert_objectid_to_str (convert_objectid_to_str d) = convert_objectid_to_str d"
  "convert_value (convert_value v) = convert_value v"
  "convert_items (convert_items xs) = convert_items xs"
  by (induction d and v and xs rule: convert_objectid_to_str_convert_value_convert_items.induct)
    simp_all

lemma same_but_ids_refl:
  "same_but_ids v v" "same_but_ids_doc d d" "same_but_ids_list xs xs"
  by (induction v and d and xs rule: has_oid_has_oid_doc_has_oid_list.induct) simp_all

lemma convert_same_but_ids:
  "same_but_ids_doc d (convert_objectid_to_str d)"
  "same_but_ids v (convert_value v)"
  "same_but_ids_list xs (convert_items xs)"
  by (induction d and v and xs rule: convert_objectid_to_str_convert_value_convert_items.induct)
    (simp_all add: same_but_ids_refl)

lemma convert_without_ids:
  "\<not> has_oid_doc d \<Longrightarrow> convert_objectid_to_str d = d"
  "\<not> has_oid v \<Longrightarrow> convert_value v = v"
  "\<not> has_oid_list xs \<Longrightarrow> convert_items xs = xs"
  by (induction d and v and xs rule: convert_objectid_to_str_convert_value_convert_items.induct)
    simp_all

text \<open>The loop with the assignments computes the same dict, the keys being distinct.\<close>

lemma fold_update_other_key:
  "key \<notin> fst ` set kvs \<Longrightarrow>
     fold (\<lambda>(k, v) d. AList.update k (f v) d) kvs ((key, w) # d0) =
     (key, w) # fold (\<lambda>(k, v) d. AList.update k (f v) d) kvs d0"
  by (induction kvs arbitrary: d0) auto

lemma assign_loop_eq:
  "distinct (map fst doc) \<Longrightarrow> assign_loop doc = convert_objectid_to_str doc"
  unfolding assign_loop_def
proof (induction doc)
  case Nil
  then show ?case by simp
next
  case (Cons a doc)
  obtain k v where a: "a = (k, v)" by (cases a)
  from Cons show ?case by (simp add: a fold_update_other_key)
qed

section \<open>Properties of the loops\<close>

lemma uploads_append: "uploads (xs @ ys) = uploads xs @ uploads ys"
  by (induction xs rule: uploads.induct) simp_all

lemma store_calls_append: "store_calls (xs @ ys) = store_calls xs @ store_calls ys"
  by (induction xs rule: store_calls.induct) simp_all

lemma write_docs_frame:
  "write_docs path docs st = (r, st') \<Longrightarrow> log st' = log st \<and> objects st' = objects st"
  by (induction docs arbitrary: st) (auto simp: f_write_def split: sum.splits)

lemma export_frame:
  assumes "export_collection_to_ndjson world cfg c d st = (r, st')"
  shows "objects st' = objects st \<and> uploads (log st') = uploads (log st)"
  using assms
  by (auto simp: export_collection_to_ndjson_def Let_def emit_def open_w_def uploads_append
      split: sum.splits if_splits prod.splits dest!: write_docs_frame)

lemma export_loop_frame:
  "export_loop world cfg cs acc st = (r, st') \<Longrightarrow>
     objects st' = objects st \<and> uploads (log st') = uploads (log st)"
proof (induction cs arbitrary: acc st)
  case Nil then show ?case by simp
next
  case (Cons c cs)
  show ?case
  proof (cases "export_collection_to_ndjson world cfg c (OUTPUT_DIR cfg) st")
    case (Pair r1 st1)
    note fr = export_frame[OF Pair]
    show ?thesis
    proof (cases r1)
      case (Inl e) with Cons.prems Pair fr show ?thesis by simp
    next
      case (Inr path)
      with Cons.prems Pair have "export_loop world cfg cs (if path \<noteq> [] then acc @ [path] else acc) st1 = (r, st')"
        by simp
      from Cons.IH[OF this] fr show ?thesis by simp
    qed
  qed
qed

lemma export_loop_append:
  "export_loop world cfg (cs1 @ cs2) acc st =
     (case export_loop world cfg cs1 acc st of
        (Inl e, st1) \<Rightarrow> (Inl e, st1)
      | (Inr acc1, st1) \<Rightarrow> export_loop world cfg cs2 acc1 st1)"
  by (induction cs1 arbitrary: acc st) (auto split: prod.splits sum.splits)

lemma upload_loop_append:
  "upload_loop world cfg (ps1 @ ps2) st =
     (case upload_loop world cfg ps1 st of
        (Inl e, st1) \<Rightarrow> (Inl e, st1)
      | (Inr u, st1) \<Rightarrow> upload_loop world cfg ps2 st1)"
  by (induction ps1 arbitrary: st) (auto split: prod.splits sum.splits)

lemma upload_to_s3_fault:
  assumes "upload_file world st p b (upload_key p pre) = Some e"
  shows "\<exists>st'. upload_to_s3 world cfg p b pre st = (Inl e, st') \<and> objects st' = objects st \<and>
     files st' = files st \<and>
     uploads (log st') = uploads (log st) @ [(p, b, upload_key p pre)]"
  using assms
  by (cases e) (simp_all add: upload_to_s3_def Let_def emit_def uploads_append)

lemma upload_to_s3_ok:
  assumes "upload_file world st p b (upload_key p pre) = None"
  shows "\<exists>st'. upload_to_s3 world cfg p b pre st = (Inr (upload_key p pre), st') \<and>
     objects st' = (objects st)((b, upload_key p pre) \<mapsto> (case files st p of None \<Rightarrow> [] | Some c \<Rightarrow> c)) \<and>
     files st' = files st \<and>
     uploads (log st') = uploads (log st) @ [(p, b, upload_key p pre)]"
  using assms
  by (simp_all add: upload_to_s3_def Let_def emit_def uploads_append)


lemma write_docs_step:
  assumes "json_dumps (Dict (convert_objectid_to_str d)) = Inr l" and "files st path = Some old"
  shows "write_docs path (d # docs) st =
     write_docs path docs (st\<lparr>files := (files st)(path \<mapsto> old @ l @ [CHR 0x0A])\<rparr>)"
proof -
  have "f_write path (l @ [CHR 0x0A]) st = st\<lparr>files := (files st)(path \<mapsto> old @ l @ [CHR 0x0A])\<rparr>"
    using assms(2) by (simp add: f_write_def)
  then show ?thesis
    by (simp only: write_docs.simps assms(1) sum.case)
qed

lemma files_update_twice:
  "st\<lparr>files := (files st)(path \<mapsto> x)\<rparr>\<lparr>files := (files (st\<lparr>files := (files st)(path \<mapsto> x)\<rparr>))(path \<mapsto> y)\<rparr> =
   st\<lparr>files := (files st)(path \<mapsto> y)\<rparr>"
  by (rule state.equality) (auto simp: fun_eq_iff)


lemma write_docs_fail:
  "list_all2 (\<lambda>d l. json_dumps (Dict (convert_objectid_to_str d)) = Inr l) pre ls \<Longrightarrow>
   json_dumps (Dict (convert_objectid_to_str bad)) = Inl e \<Longrightarrow>
   files st path = Some old \<Longrightarrow>
   write_docs path (pre @ bad # post) st =
     (Inl e, st\<lparr>files := (files st)(path \<mapsto> old @ concat (map (\<lambda>l. l @ [CHR 0x0A]) ls))\<rparr>)"
proof (induction pre ls arbitrary: st old rule: list_all2_induct)
  case Nil
  have "write_docs path (bad # post) st = (Inl e, st)"
    by (simp only: write_docs.simps Nil(1) sum.case)
  with Nil(2) show ?case by (simp add: map_upd_triv)
next
  case (Cons d docs l ls)
  let ?st = "st\<lparr>files := (files st)(path \<mapsto> old @ l @ [CHR 0x0A])\<rparr>"
  have "files ?st path = Some (old @ l @ [CHR 0x0A])" by simp
  from Cons.IH[OF Cons.prems(1) this] have
    "write_docs path (docs @ bad # post) ?st =
       (Inl e, st\<lparr>files := (files st)(path \<mapsto> old @ concat (map (\<lambda>l. l @ [CHR 0x0A]) (l # ls)))\<rparr>)"
    by (simp only: files_update_twice append_assoc concat.simps list.map)
  moreover have "write_docs path ((d # docs) @ bad # post) st = write_docs path (docs @ bad # post) ?st"
    by (simp only: append_Cons write_docs_step[OF Cons.hyps(1) Cons.prems(2)])
  ultimately show ?case by (simp only:)
qed

lemma export_skip:
  assumes "find_all world st (MONGO_DB cfg) coll = Inr []"
  shows "export_collection_to_ndjson world cfg coll out_dir st =
     (Inr [], st\<lparr>log := log st @ [Find (MONGO_DB cfg) coll, Stdout (warn_empty coll)]\<rparr>)"
  using assms by (simp add: export_collection_to_ndjson_def Let_def emit_def)

lemma export_fail:
  assumes "find_all world st (MONGO_DB cfg) coll = Inr (pre @ bad # post)"
    and "list_all2 (\<lambda>d l. json_dumps (Dict (convert_objectid_to_str d)) = Inr l) pre ls"
    and "json_dumps (Dict (convert_objectid_to_str bad)) = Inl e"
  shows "export_collection_to_ndjson world cfg coll out_dir st =
     (Inl e, st\<lparr>files := (files st)(path_join out_dir (coll @ ''_'' @ TIMESTAMP cfg @ ''.ndjson'') \<mapsto>
                concat (map (\<lambda>l. l @ [CHR 0x0A]) ls)),
              log := log st @ [Find (MONGO_DB cfg) coll]\<rparr>)"
proof -
  let ?p = "path_join out_dir (coll @ ''_'' @ TIMESTAMP cfg @ ''.ndjson'')"
  let ?s = "open_w ?p (emit (Find (MONGO_DB cfg) coll) st)"
  have f: "files ?s ?p = Some []" by (simp add: open_w_def)
  show ?thesis
    using assms(1) write_docs_fail[OF assms(2,3) f, of post]
    by (simp add: export_collection_to_ndjson_def Let_def emit_def open_w_def)
qed


lemma upload_loop_ok:
  "upload_loop world cfg ps st = (Inr u, st1) \<Longrightarrow>
     files st1 = files st \<and>
     uploads (log st1) =
       uploads (log st) @ map (\<lambda>p. (p, S3_BUCKET cfg, upload_key p (Some (S3_PREFIX cfg)))) ps \<and>
     (\<forall>p\<in>set ps. (S3_BUCKET cfg, upload_key p (Some (S3_PREFIX cfg))) \<in> dom (objects st1)) \<and>
     dom (objects st) \<subseteq> dom (objects st1)"
proof (induction ps arbitrary: st)
  case Nil
  then show ?case by simp
next
  case (Cons p ps)
  let ?k = "upload_key p (Some (S3_PREFIX cfg))"
  show ?case
  proof (cases "upload_file world st p (S3_BUCKET cfg) ?k")
    case None
    from upload_to_s3_ok[OF None, of cfg] obtain s where
      s: "upload_to_s3 world cfg p (S3_BUCKET cfg) (Some (S3_PREFIX cfg)) st = (Inr ?k, s)"
        "objects s = (objects st)((S3_BUCKET cfg, ?k) \<mapsto> (case files st p of None \<Rightarrow> [] | Some c \<Rightarrow> c))"
        "files s = files st"
        "uploads (log s) = uploads (log st) @ [(p, S3_BUCKET cfg, ?k)]"
      by blast
    with Cons.prems have "upload_loop world cfg ps s = (Inr u, st1)" by simp
    moreover have "dom (objects s) = insert (S3_BUCKET cfg, ?k) (dom (objects st))"
      using s(2) by simp
    ultimately show ?thesis using Cons.IH[of s] s(3,4) by auto
  next
    case (Some e)
    from upload_to_s3_fault[OF Some, of cfg] Cons.prems show ?thesis by auto
  qed
qed

lemma main_valid:
  assumes "MONGO_DB cfg \<noteq> []" "COLLECTIONS cfg \<noteq> []" "S3_BUCKET cfg \<noteq> []"
  shows "main world cfg st =
     (case export_loop world cfg (COLLECTIONS cfg) []
             (get_client cfg (ensure_output_dir (OUTPUT_DIR cfg) st)) of
        (Inl e, st3) \<Rightarrow> (Raised e, st3)
      | (Inr exported_files, st3) \<Rightarrow>
          if exported_files = [] then (SysExit 2, emit (Stderr msg_nothing_exported) st3)
          else (case upload_loop world cfg exported_files st3 of
                  (Inl e, st4) \<Rightarrow> (Raised e, st4)
                | (Inr u, st4) \<Rightarrow> (Completed, emit (Stdout ''[DONE] Ingesta completada.'') st4)))"
  using assms by (simp add: main_def Let_def)

lemma setup_frame:
  "objects (get_client cfg (ensure_output_dir d st)) = objects st"
  "files (get_client cfg (ensure_output_dir d st)) = files st"
  "uploads (log (get_client cfg (ensure_output_dir d st))) = uploads (log st)"
  by (simp_all add: get_client_def ensure_output_dir_def emit_def Let_def uploads_append)

lemma upload_loop_attempts:
  "\<exists>k. uploads (log (snd (upload_loop world cfg ps st))) =
     uploads (log st) @
     map (\<lambda>p. (p, S3_BUCKET cfg, upload_key p (Some (S3_PREFIX cfg)))) (take k ps)"
proof (induction ps arbitrary: st)
  case Nil
  then show ?case by simp
next
  case (Cons p ps)
  let ?k = "upload_key p (Some (S3_PREFIX cfg))"
  show ?case
  proof (cases "upload_file world st p (S3_BUCKET cfg) ?k")
    case None
    from upload_to_s3_ok[OF None, of cfg] obtain s where
      s: "upload_to_s3 world cfg p (S3_BUCKET cfg) (Some (S3_PREFIX cfg)) st = (Inr ?k, s)"
        "uploads (log s) = uploads (log st) @ [(p, S3_BUCKET cfg, ?k)]"
      by blast
    from Cons.IH[of s] obtain k where
      "uploads (log (snd (upload_loop world cfg ps s))) =
         uploads (log s) @ map (\<lambda>p. (p, S3_BUCKET cfg, upload_key p (Some (S3_PREFIX cfg)))) (take k ps)"
      by blast
    with s have "uploads (log (snd (upload_loop world cfg (p # ps) st))) =
         uploads (log st) @ map (\<lambda>p. (p, S3_BUCKET cfg, upload_key p (Some (S3_PREFIX cfg)))) (take (Suc k) (p # ps))"
      by simp
    then show ?thesis by blast
  next
    case (Some e)
    from upload_to_s3_fault[OF Some, of cfg] obtain s where
      "upload_to_s3 world cfg p (S3_BUCKET cfg) (Some (S3_PREFIX cfg)) st = (Inl e, s)"
      "uploads (log s) = uploads (log st) @ [(p, S3_BUCKET cfg, ?k)]"
      by blast
    then have "uploads (log (snd (upload_loop world cfg (p # ps) st))) =
         uploads (log st) @ map (\<lambda>p. (p, S3_BUCKET cfg, upload_key p (Some (S3_PREFIX cfg)))) (take (Suc 0) (p # ps))"
      by simp
    then show ?thesis by blast
  qed
qed

lemma basename_split:
  "\<exists>dir. p = dir @ basename p \<and> (dir = [] \<or> last dir = CHR ''/'')"
proof -
  let ?P = "\<lambda>c. c \<noteq> CHR ''/''"
  let ?d = "rev (dropWhile ?P (rev p))"
  have "p = rev (takeWhile ?P (rev p) @ dropWhile ?P (rev p))"
    by (simp only: takeWhile_dropWhile_id rev_rev_ident)
  then have 1: "p = ?d @ basename p" by (simp only: rev_append basename_def)
  have 2: "?d = [] \<or> last ?d = CHR ''/''"
  proof (cases "dropWhile ?P (rev p)")
    case Nil
    then show ?thesis by simp
  next
    case (Cons c cs)
    then have "\<not> ?P c" using hd_dropWhile[of ?P "rev p"] by simp
    with Cons show ?thesis by (simp add: last_rev)
  qed
  from 1 2 show ?thesis by blast
qed

lemma basename_no_slash: "CHR ''/'' \<notin> set (basename p)"
  unfolding basename_def using set_takeWhileD[of "CHR ''/''" "\<lambda>c. c \<noteq> CHR ''/''" "rev p"] by auto

lemma dropWhile_replicate_prefix:
  "\<exists>n. xs = replicate n c @ dropWhile (\<lambda>x. x = c) xs"
proof (induction xs)
  case Nil
  then show ?case by simp
next
  case (Cons x xs)
  show ?case
  proof (cases "x = c")
    case True
    from Cons obtain n where "xs = replicate n c @ dropWhile (\<lambda>x. x = c) xs" by blast
    then have "x # xs = replicate (Suc n) c @ dropWhile (\<lambda>x. x = c) (x # xs)"
      using True by simp
    then show ?thesis by blast
  next
    case False
    then have "x # xs = replicate 0 c @ dropWhile (\<lambda>x. x = c) (x # xs)" by simp
    then show ?thesis by blast
  qed
qed

lemma rstrip_slash_split: "\<exists>n. s = rstrip_slash s @ replicate n (CHR ''/'')"
proof -
  from dropWhile_replicate_prefix[of "rev s" "CHR ''/''"] obtain n where
    "rev s = replicate n (CHR ''/'') @ dropWhile (\<lambda>x. x = CHR ''/'') (rev s)" by blast
  then have "rev (rev s) = rev (replicate n (CHR ''/'') @ dropWhile (\<lambda>x. x = CHR ''/'') (rev s))"
    by (rule arg_cong)
  then have "s = rstrip_slash s @ replicate n (CHR ''/'')" by (simp add: rstrip_slash_def)
  then show ?thesis by blast
qed

lemma rstrip_slash_last: "rstrip_slash s = [] \<or> last (rstrip_slash s) \<noteq> CHR ''/''"
proof (cases "dropWhile (\<lambda>x. x = CHR ''/'') (rev s)")
  case Nil
  then show ?thesis by (simp add: rstrip_slash_def)
next
  case (Cons c cs)
  then have "c \<noteq> CHR ''/''" using hd_dropWhile[of "\<lambda>x. x = CHR ''/''" "rev s"] by simp
  with Cons show ?thesis by (simp add: rstrip_slash_def last_rev)
qed

lemma upload_to_s3_attempt:
  "uploads (log (snd (upload_to_s3 world cfg p b pre st))) =
     uploads (log st) @ [(p, b, upload_key p pre)] \<and>
   (case fst (upload_to_s3 world cfg p b pre st) of Inl e \<Rightarrow> True | Inr k \<Rightarrow> k = upload_key p pre)"
proof (cases "upload_file world st p b (upload_key p pre)")
  case None
  from upload_to_s3_ok[OF None, of cfg] show ?thesis by auto
next
  case (Some e)
  from upload_to_s3_fault[OF Some, of cfg] show ?thesis by auto
qed

lemma pair_fst_snd: "fst x = a \<Longrightarrow> x = (a, snd x)"
  by (cases x) simp

section \<open>Properties of the text written\<close>

lemma digit_char_cases:
  "k < 10 \<Longrightarrow> k = 0 \<or> k = 1 \<or> k = 2 \<or> k = 3 \<or> k = 4 \<or> k = 5 \<or> k = 6 \<or> k = 7 \<or> k = 8 \<or> k = (9::nat)"
  by arith

lemma digit_char_digit: "k < 10 \<Longrightarrow> is_digit (digit_char k)"
  by (drule digit_char_cases) (auto simp: digit_char_def is_digit_def)

lemma digit_char_zero: "k < 10 \<Longrightarrow> digit_char k = CHR ''0'' \<longleftrightarrow> k = 0"
  by (drule digit_char_cases) (auto simp: digit_char_def)


lemma str_nat_digits:
  "str_nat n \<noteq> [] \<and> list_all is_digit (str_nat n) \<and> (n \<noteq> 0 \<longrightarrow> take 1 (str_nat n) \<noteq> ''0'')"
proof (induction n rule: str_nat.induct)
  case (1 n)
  show ?case
  proof (cases "n < 10")
    case True
    then show ?thesis
      by (simp add: str_nat.simps[of n] digit_char_digit digit_char_zero)
  next
    case False
    then have "n div 10 \<noteq> 0" by simp
    with 1[OF False] False show ?thesis
      by (cases "str_nat (n div 10)") (simp_all add: str_nat.simps[of n] digit_char_digit)
  qed
qed



lemma str_nat_no_minus: "take 1 (str_nat n) \<noteq> ''-''"
proof -
  from str_nat_digits[of n] have "str_nat n \<noteq> []" "list_all is_digit (str_nat n)" by simp_all
  then show ?thesis by (cases "str_nat n") (auto simp: is_digit_def)
qed




















































lemma float_repr_examples:
  "float_repr False 15 1 = ''1.5''"
  "float_repr False 12345 2 = ''12.345''"
  "float_repr False 1 (- 2) = ''0.001''"
  "float_repr True 0 1 = ''-0.0''"
  "float_repr False 1 17 = ''1e+16''"
  "float_repr True 15 (- 4) = ''-1.5e-05''"
  "float_repr False 1 101 = ''1e+100''"
  by (simp_all add: float_repr_def str_nat.simps digit_char_def Let_def pad2_def numeral_2_eq_2)


section \<open>The claims\<close>

text \<open>
  Claim C1. After \<open>convert_objectid_to_str\<close> no \<open>ObjectId\<close> should remain anywhere in the
  document. The inner loop over a list only descends into items that are dicts: an
  identifier that is itself an item of a list is left as it is. For the document
  \<open>{"ids": [ObjectId("507f1f77bcf86cd799439011")]}\<close> the function returns its input, which
  still holds the identifier.
\<close>

theorem objectid_in_list_survives:
  "convert_objectid_to_str [(''ids'', Arr [Oid (ObjectId ''507f1f77bcf86cd799439011'')])] =
     [(''ids'', Arr [Oid (ObjectId ''507f1f77bcf86cd799439011'')])] \<and>
   has_oid_doc
     (convert_objectid_to_str [(''ids'', Arr [Oid (ObjectId ''507f1f77bcf86cd799439011'')])])"
  by simp

text \<open>
  Claim C8. The normalizer is idempotent: normalizing a document twice gives the same
  document as normalizing it once.
\<close>

theorem normalizer_idempotent:
  "convert_objectid_to_str (convert_objectid_to_str d) = convert_objectid_to_str d"
  by (rule convert_fixpoint(1))

text \<open>
  Claim C9. Normalization changes identifiers only. A value that is not an identifier,
  not a dict and not a list is left as it is by the loop body; the normalized document is
  the document it was given except at identifiers (same keys in the same order, same
  list lengths, every value that is not an identifier equal); and a document that holds
  no identifier is returned unchanged.
\<close>

theorem normalizer_changes_only_identifiers:
  "((\<forall>i. v \<noteq> Oid i) \<and> (\<forall>m. v \<noteq> Dict m) \<and> (\<forall>xs. v \<noteq> Arr xs) \<longrightarrow> convert_value v = v) \<and>
   same_but_ids_doc d (convert_objectid_to_str d) \<and>
   (\<not> has_oid_doc e \<longrightarrow> convert_objectid_to_str e = e)"
proof (intro conjI impI)
  assume "(\<forall>i. v \<noteq> Oid i) \<and> (\<forall>m. v \<noteq> Dict m) \<and> (\<forall>xs. v \<noteq> Arr xs)"
  then show "convert_value v = v" by (cases v) simp_all
next
  show "same_but_ids_doc d (convert_objectid_to_str d)" by (rule convert_same_but_ids(1))
next
  assume "\<not> has_oid_doc e"
  then show "convert_objectid_to_str e = e" by (rule convert_without_ids(1))
qed

theorem normalizer_changes_only_identifiers_witness:
  "convert_value (Integer 7) = Integer 7 \<and>
   same_but_ids_doc
     [(''_id'', Oid (ObjectId ''5f1a'')), (''n'', Integer 3),
      (''tags'', Arr [Str ''a'', Dict [(''ref'', Oid (ObjectId ''5f1b''))]])]
     (convert_objectid_to_str
       [(''_id'', Oid (ObjectId ''5f1a'')), (''n'', Integer 3),
        (''tags'', Arr [Str ''a'', Dict [(''ref'', Oid (ObjectId ''5f1b''))]])]) \<and>
   convert_objectid_to_str [(''n'', Integer 3), (''tags'', Arr [Str ''a''])] =
     [(''n'', Integer 3), (''tags'', Arr [Str ''a''])]"
  using normalizer_changes_only_identifiers
    [of "Integer 7"
        "[(''_id'', Oid (ObjectId ''5f1a'')), (''n'', Integer 3),
          (''tags'', Arr [Str ''a'', Dict [(''ref'', Oid (ObjectId ''5f1b''))]])]"
        "[(''n'', Integer 3), (''tags'', Arr [Str ''a''])]"]
  by simp

text \<open>
  Claim C4. With the database name empty, the list of collections empty or the bucket
  empty, \<open>main\<close> calls \<open>sys.exit(1)\<close>: the exit status is 1, and all the run has done by
  then is to write one message to stderr. In particular the log holds no call to the
  document store (no client is built, nothing is fetched): the checks come before any
  connection.
\<close>

theorem missing_configuration_exits_1:
  assumes "MONGO_DB cfg = [] \<or> COLLECTIONS cfg = [] \<or> S3_BUCKET cfg = []"
  shows "fst (main world cfg st) = SysExit 1 \<and>
         exit_status (fst (main world cfg st)) = 1 \<and>
         (\<exists>msg. snd (main world cfg st) = st\<lparr>log := log st @ [Stderr msg]\<rparr>) \<and>
         store_calls (log (snd (main world cfg st))) = store_calls (log st)"
  using assms by (auto simp: main_def emit_def store_calls_append)

theorem missing_configuration_exits_1_witness:
  "(MONGO_DB (sample_config\<lparr>S3_BUCKET := []\<rparr>) = [] \<or>
    COLLECTIONS (sample_config\<lparr>S3_BUCKET := []\<rparr>) = [] \<or>
    S3_BUCKET (sample_config\<lparr>S3_BUCKET := []\<rparr>) = []) \<and>
   fst (main (sample_world sample_store no_fault) (sample_config\<lparr>S3_BUCKET := []\<rparr>) fresh) = SysExit 1 \<and>
   store_calls (log (snd (main (sample_world sample_store no_fault) (sample_config\<lparr>S3_BUCKET := []\<rparr>) fresh))) = []"
proof -
  have h: "MONGO_DB (sample_config\<lparr>S3_BUCKET := []\<rparr>) = [] \<or>
    COLLECTIONS (sample_config\<lparr>S3_BUCKET := []\<rparr>) = [] \<or>
    S3_BUCKET (sample_config\<lparr>S3_BUCKET := []\<rparr>) = []" by simp
  from missing_configuration_exits_1[OF h, of "sample_world sample_store no_fault" fresh] h
  show ?thesis by (simp add: fresh_def)
qed

text \<open>
  Claim C2. In a run with a valid configuration whose loop over the collections ends with
  an empty list of exported paths, \<open>main\<close> calls \<open>sys.exit(2)\<close>: the exit status is 2 (the
  configuration error is 1), no upload is attempted and no object is stored.
\<close>

theorem no_exports_exit_2:
  assumes "MONGO_DB cfg \<noteq> []" and "COLLECTIONS cfg \<noteq> []" and "S3_BUCKET cfg \<noteq> []"
    and "fst (export_loop world cfg (COLLECTIONS cfg) []
           (get_client cfg (ensure_output_dir (OUTPUT_DIR cfg) st))) = Inr []"
  shows "fst (main world cfg st) = SysExit 2 \<and>
         exit_status (fst (main world cfg st)) = 2 \<and>
         uploads (log (snd (main world cfg st))) = uploads (log st) \<and>
         objects (snd (main world cfg st)) = objects st"
proof -
  let ?s = "get_client cfg (ensure_output_dir (OUTPUT_DIR cfg) st)"
  obtain st3 where e: "export_loop world cfg (COLLECTIONS cfg) [] ?s = (Inr [], st3)"
    using assms(4) by (cases "export_loop world cfg (COLLECTIONS cfg) [] ?s") simp
  from export_loop_frame[OF e] have fr: "objects st3 = objects st" "uploads (log st3) = uploads (log st)"
    by (simp_all add: setup_frame)
  have "main world cfg st = (SysExit 2, emit (Stderr msg_nothing_exported) st3)"
    by (simp add: main_valid[OF assms(1-3)] e)
  with fr show ?thesis by (simp add: emit_def uploads_append)
qed

theorem no_exports_exit_2_witness:
  "fst (export_loop (sample_world empty_store no_fault) sample_config (COLLECTIONS sample_config) []
          (get_client sample_config (ensure_output_dir (OUTPUT_DIR sample_config) fresh))) = Inr [] \<and>
   fst (main (sample_world empty_store no_fault) sample_config fresh) = SysExit 2 \<and>
   uploads (log (snd (main (sample_world empty_store no_fault) sample_config fresh))) = []"
proof -
  have c: "MONGO_DB sample_config \<noteq> []" "COLLECTIONS sample_config \<noteq> []" "S3_BUCKET sample_config \<noteq> []"
    by (simp_all add: sample_config_def)
  have h: "fst (export_loop (sample_world empty_store no_fault) sample_config (COLLECTIONS sample_config) []
          (get_client sample_config (ensure_output_dir (OUTPUT_DIR sample_config) fresh))) = Inr []"
    by (simp add: sample_config_def export_collection_to_ndjson_def sample_world_def empty_store_def)
  from no_exports_exit_2[OF c h] h show ?thesis by (simp add: fresh_def)
qed

text \<open>
  Claim C5, amended. For a collection whose fetch returns no document, the exporter
  prints the warning, creates no file and returns the empty path, a bare string that
  carries no count. It is a skip, not an error: the loop of \<open>main\<close> goes on with the next
  collection and the list of exported files as it was, and only paths of that list are
  ever given to the transfer client.
\<close>

theorem empty_collection_is_skipped:
  assumes "find_all world st (MONGO_DB cfg) coll = Inr []"
  shows "export_collection_to_ndjson world cfg coll out_dir st =
           (Inr [], st\<lparr>log := log st @ [Find (MONGO_DB cfg) coll, Stdout (warn_empty coll)]\<rparr>) \<and>
         files (snd (export_collection_to_ndjson world cfg coll out_dir st)) = files st \<and>
         export_loop world cfg (coll # rest) exported_files st =
           export_loop world cfg rest exported_files
             (st\<lparr>log := log st @ [Find (MONGO_DB cfg) coll, Stdout (warn_empty coll)]\<rparr>) \<and>
         fst ` set (uploads (log (snd (upload_loop world cfg exported_files s)))) \<subseteq>
           fst ` set (uploads (log s)) \<union> set exported_files \<and>
         returned_value (export_collection_to_ndjson world cfg coll out_dir st) = Some (PyStr [])"
proof (intro conjI)
  show a: "export_collection_to_ndjson world cfg coll out_dir st =
           (Inr [], st\<lparr>log := log st @ [Find (MONGO_DB cfg) coll, Stdout (warn_empty coll)]\<rparr>)"
    by (rule export_skip[OF assms])
  show "returned_value (export_collection_to_ndjson world cfg coll out_dir st) = Some (PyStr [])"
    by (simp add: a returned_value_def)
  show "files (snd (export_collection_to_ndjson world cfg coll out_dir st)) = files st"
    by (simp add: a)
  show "export_loop world cfg (coll # rest) exported_files st =
           export_loop world cfg rest exported_files
             (st\<lparr>log := log st @ [Find (MONGO_DB cfg) coll, Stdout (warn_empty coll)]\<rparr>)"
    by (simp add: export_skip[OF assms])
  from upload_loop_attempts[of world cfg exported_files s] obtain k where
    "uploads (log (snd (upload_loop world cfg exported_files s))) =
     uploads (log s) @
     map (\<lambda>p. (p, S3_BUCKET cfg, upload_key p (Some (S3_PREFIX cfg)))) (take k exported_files)"
    by blast
  then show "fst ` set (uploads (log (snd (upload_loop world cfg exported_files s)))) \<subseteq>
           fst ` set (uploads (log s)) \<union> set exported_files"
    by (auto dest: in_set_takeD)
qed

theorem empty_collection_is_skipped_witness:
  "find_all (sample_world sample_store no_fault) fresh (MONGO_DB sample_config) ''logs'' = Inr [] \<and>
   fst (export_collection_to_ndjson (sample_world sample_store no_fault) sample_config ''logs'' ''/app/out'' fresh) = Inr [] \<and>
   files (snd (export_collection_to_ndjson (sample_world sample_store no_fault) sample_config ''logs'' ''/app/out'' fresh)) = Map.empty"
proof -
  have h: "find_all (sample_world sample_store no_fault) fresh (MONGO_DB sample_config) ''logs'' = Inr []"
    by (simp add: sample_world_def sample_store_def)
  from empty_collection_is_skipped[OF h, of "''/app/out''"] h show ?thesis by (simp add: fresh_def)
qed

text \<open>
  Claim C5 as it was stated has the exporter return a result with an empty output path
  and a zero count. The value returned for the empty collection \<open>logs\<close> is the string
  \<open>""\<close>: no returned value with an empty path and a count of zero is handed back.
\<close>

theorem skip_returns_no_count:
  "find_all (sample_world sample_store no_fault) fresh (MONGO_DB sample_config) ''logs'' = Inr [] \<and>
   returned_value
     (export_collection_to_ndjson (sample_world sample_store no_fault) sample_config
        ''logs'' ''/app/out'' fresh) = Some (PyStr []) \<and>
   \<not> (\<exists>v. returned_value
            (export_collection_to_ndjson (sample_world sample_store no_fault) sample_config
               ''logs'' ''/app/out'' fresh) = Some v \<and>
          result_path v = [] \<and> result_count v = Some 0)"
proof -
  have h: "find_all (sample_world sample_store no_fault) fresh (MONGO_DB sample_config) ''logs'' = Inr []"
    by (simp add: sample_world_def sample_store_def)
  have r: "returned_value
     (export_collection_to_ndjson (sample_world sample_store no_fault) sample_config
        ''logs'' ''/app/out'' fresh) = Some (PyStr [])"
    by (simp add: export_skip[OF h] returned_value_def)
  show ?thesis by (simp add: h r)
qed

text \<open>
  Claim C3. In the upload phase, when the uploads of the files \<open>done\<close> have succeeded and
  the transfer of the next file \<open>bad\<close> raises \<open>e\<close> (a credentials error, a service error or
  any other exception), the loop and \<open>main\<close> end with that same exception. The attempts
  made are those for \<open>done\<close> and for \<open>bad\<close>, none for the files after it; the objects in
  the bucket are the ones that were there when the failing transfer started, so every
  file of \<open>done\<close> is still stored under its key: nothing is deleted.
\<close>

theorem first_upload_failure_aborts:
  assumes "MONGO_DB cfg \<noteq> []" and "COLLECTIONS cfg \<noteq> []" and "S3_BUCKET cfg \<noteq> []"
    and "export_loop world cfg (COLLECTIONS cfg) []
           (get_client cfg (ensure_output_dir (OUTPUT_DIR cfg) st)) = (Inr (done @ bad # rest), st3)"
    and "upload_loop world cfg done st3 = (Inr (), st4)"
    and "upload_file world st4 bad (S3_BUCKET cfg) (upload_key bad (Some (S3_PREFIX cfg))) = Some e"
  shows "\<exists>st5. upload_loop world cfg (done @ bad # rest) st3 = (Inl e, st5) \<and>
           main world cfg st = (Raised e, st5) \<and>
           objects st5 = objects st4 \<and>
           uploads (log st5) = uploads (log st3) @
             map (\<lambda>p. (p, S3_BUCKET cfg, upload_key p (Some (S3_PREFIX cfg)))) (done @ [bad]) \<and>
           (\<forall>p\<in>set done. (S3_BUCKET cfg, upload_key p (Some (S3_PREFIX cfg))) \<in> dom (objects st5))"
proof -
  from upload_to_s3_fault[OF assms(6), of cfg] obtain st5 where
    s: "upload_to_s3 world cfg bad (S3_BUCKET cfg) (Some (S3_PREFIX cfg)) st4 = (Inl e, st5)"
       "objects st5 = objects st4"
       "uploads (log st5) = uploads (log st4) @ [(bad, S3_BUCKET cfg, upload_key bad (Some (S3_PREFIX cfg)))]"
    by blast
  have l: "upload_loop world cfg (done @ bad # rest) st3 = (Inl e, st5)"
    by (simp add: upload_loop_append assms(5) s(1))
  have m: "main world cfg st = (Raised e, st5)"
    by (simp add: main_valid[OF assms(1-3)] assms(4) l)
  from upload_loop_ok[OF assms(5)] s(2,3) l m show ?thesis by simp
qed

theorem first_upload_failure_aborts_witness:
  "fst (main (sample_world sample_store orders_denied) sample_config fresh) =
     Raised (ClientError ''AccessDenied'') \<and>
   uploads (log (snd (main (sample_world sample_store orders_denied) sample_config fresh))) =
     [(''/app/out/users_20240101T000000Z.ndjson'', ''lake'', ''backups/users_20240101T000000Z.ndjson''),
      (''/app/out/orders_20240101T000000Z.ndjson'', ''lake'', ''backups/orders_20240101T000000Z.ndjson'')] \<and>
   dom (objects (snd (main (sample_world sample_store orders_denied) sample_config fresh))) =
     {(''lake'', ''backups/users_20240101T000000Z.ndjson'')}"
proof -
  let ?w = "sample_world sample_store orders_denied"
  let ?u = "''/app/out/users_20240101T000000Z.ndjson''"
  let ?o = "''/app/out/orders_20240101T000000Z.ndjson''"
  let ?ku = "''backups/users_20240101T000000Z.ndjson''"
  let ?ko = "''backups/orders_20240101T000000Z.ndjson''"
  let ?s2 = "get_client sample_config (ensure_output_dir (OUTPUT_DIR sample_config) fresh)"
  let ?s3 = "snd (export_loop ?w sample_config (COLLECTIONS sample_config) [] ?s2)"
  have c: "MONGO_DB sample_config \<noteq> []" "COLLECTIONS sample_config \<noteq> []" "S3_BUCKET sample_config \<noteq> []"
    by (simp_all add: sample_config_def)
  have b: "S3_BUCKET sample_config = ''lake''" "S3_PREFIX sample_config = ''backups/''"
    by (simp_all add: sample_config_def)
  have ku: "upload_key ?u (Some ''backups/'') = ?ku"
    by (simp add: upload_key_def basename_def rstrip_slash_def)
  have ko: "upload_key ?o (Some ''backups/'') = ?ko"
    by (simp add: upload_key_def basename_def rstrip_slash_def)
  have "fst (export_loop ?w sample_config (COLLECTIONS sample_config) [] ?s2) = Inr ([?u] @ ?o # [])"
    by (simp add: sample_config_def export_collection_to_ndjson_def sample_world_def
        sample_store_def path_join_def Let_def split: prod.splits sum.splits)
  then have e: "export_loop ?w sample_config (COLLECTIONS sample_config) [] ?s2 = (Inr ([?u] @ ?o # []), ?s3)"
    by (rule pair_fst_snd)
  have fu: "files ?s3 ?u \<noteq> None"
    by (simp add: sample_config_def export_collection_to_ndjson_def sample_world_def
        sample_store_def path_join_def Let_def emit_def open_w_def f_write_def
        split: prod.splits sum.splits)
  have fo: "files ?s3 ?o \<noteq> None"
    by (simp add: sample_config_def export_collection_to_ndjson_def sample_world_def
        sample_store_def path_join_def Let_def emit_def open_w_def f_write_def
        split: prod.splits sum.splits)
  from export_loop_frame[OF e] have fr: "objects ?s3 = Map.empty" "uploads (log ?s3) = []"
    by (simp_all add: setup_frame fresh_def)
  have "upload_file ?w ?s3 ?u ''lake'' ?ku = None"
    using fu by (auto simp: upload_file_def sample_world_def orders_denied_def split: option.splits)
  then have "upload_file ?w ?s3 ?u (S3_BUCKET sample_config) (upload_key ?u (Some (S3_PREFIX sample_config))) = None"
    by (simp only: b ku)
  from upload_to_s3_ok[OF this, of sample_config] obtain s4 where
    s4: "upload_to_s3 ?w sample_config ?u (S3_BUCKET sample_config) (Some (S3_PREFIX sample_config)) ?s3 =
           (Inr (upload_key ?u (Some (S3_PREFIX sample_config))), s4)"
        "objects s4 = (objects ?s3)((S3_BUCKET sample_config, upload_key ?u (Some (S3_PREFIX sample_config))) \<mapsto>
           (case files ?s3 ?u of None \<Rightarrow> [] | Some c \<Rightarrow> c))"
        "files s4 = files ?s3"
    by blast
  have u: "upload_loop ?w sample_config [?u] ?s3 = (Inr (), s4)"
    by (simp only: upload_loop.simps s4(1) prod.case sum.case)
  have d4: "dom (objects s4) = {(''lake'', ?ku)}"
    by (simp only: s4(2) fr(1) b ku dom_fun_upd dom_empty option.simps if_False)
  have "upload_file ?w s4 ?o ''lake'' ?ko = Some (ClientError ''AccessDenied'')"
    using fo by (auto simp: upload_file_def s4(3) sample_world_def orders_denied_def split: option.splits)
  then have k: "upload_file ?w s4 ?o (S3_BUCKET sample_config)
             (upload_key ?o (Some (S3_PREFIX sample_config))) = Some (ClientError ''AccessDenied'')"
    by (simp only: b ko)
  from first_upload_failure_aborts[OF c e u k] obtain st5 where
    r: "main ?w sample_config fresh = (Raised (ClientError ''AccessDenied''), st5)"
       "objects st5 = objects s4"
       "uploads (log st5) = uploads (log ?s3) @
          map (\<lambda>p. (p, S3_BUCKET sample_config, upload_key p (Some (S3_PREFIX sample_config)))) ([?u] @ [?o])"
    by blast
  have "uploads (log st5) = [(?u, ''lake'', ?ku), (?o, ''lake'', ?ko)]"
    by (simp only: r(3) fr(2) b ku ko append.simps list.map)
  with r(1,2) d4 show ?thesis by (simp only: fst_conv snd_conv simp_thms)
qed

text \<open>
  Claim C7. The destination key is the basename of the local path when there is no prefix
  (\<open>None\<close> or the empty string), and otherwise the prefix without its trailing slashes,
  a slash, and the basename. The stripped prefix is the prefix up to its trailing slashes
  and does not end with a slash; the basename is what follows the last slash of the path.
  Prefix \<open>backups/\<close> and file \<open>users_20240101T000000Z.ndjson\<close> give the key
  \<open>backups/users_20240101T000000Z.ndjson\<close>. This is the key the transfer client uses.
\<close>

theorem upload_key_computation:
  "upload_key path None = basename path \<and>
   upload_key path (Some []) = basename path \<and>
   (prefix \<noteq> [] \<longrightarrow> upload_key path (Some prefix) = rstrip_slash prefix @ ''/'' @ basename path) \<and>
   (\<exists>n. prefix = rstrip_slash prefix @ replicate n (CHR ''/'')) \<and>
   (rstrip_slash prefix = [] \<or> last (rstrip_slash prefix) \<noteq> CHR ''/'') \<and>
   (\<exists>dir. path = dir @ basename path \<and> (dir = [] \<or> last dir = CHR ''/'')) \<and>
   CHR ''/'' \<notin> set (basename path) \<and>
   upload_key ''users_20240101T000000Z.ndjson'' (Some ''backups/'') =
     ''backups/users_20240101T000000Z.ndjson'' \<and>
   uploads (log (snd (upload_to_s3 world cfg path bucket pfx st))) =
     uploads (log st) @ [(path, bucket, upload_key path pfx)]"
proof (intro conjI impI)
  show "upload_key ''users_20240101T000000Z.ndjson'' (Some ''backups/'') =
     ''backups/users_20240101T000000Z.ndjson''"
    by (simp add: upload_key_def basename_def rstrip_slash_def)
qed (simp_all add: upload_key_def rstrip_slash_split rstrip_slash_last basename_split
      basename_no_slash upload_to_s3_attempt)

theorem upload_key_computation_witness:
  "''backups//'' \<noteq> [] \<and>
   upload_key ''/app/out/orders_20240101T000000Z.ndjson'' (Some ''backups//'') =
     ''backups/orders_20240101T000000Z.ndjson''"
  using upload_key_computation [of "''/app/out/orders_20240101T000000Z.ndjson''" "''backups//''"]
  by (simp add: basename_def rstrip_slash_def)

text \<open>
  Claim C10. The export of a collection is not atomic. When the documents \<open>pre\<close> encode
  to the lines \<open>ls\<close> and the next document \<open>bad\<close> makes \<open>json.dumps\<close> raise \<open>e\<close>, the
  exporter ends with \<open>e\<close> and the file at the output path holds exactly the lines of
  \<open>pre\<close>. The exception leaves the loop of \<open>main\<close> before the path could be appended to
  the exported files, and leaves \<open>main\<close>: no upload is attempted and no object is stored.
\<close>

theorem serialization_failure_leaves_partial_file:
  assumes "MONGO_DB cfg \<noteq> []" and "S3_BUCKET cfg \<noteq> []"
    and "COLLECTIONS cfg = before @ coll # later"
    and "export_loop world cfg before []
           (get_client cfg (ensure_output_dir (OUTPUT_DIR cfg) st0)) = (Inr exported_files, st)"
    and "find_all world st (MONGO_DB cfg) coll = Inr (pre @ bad # post)"
    and "list_all2 (\<lambda>d l. json_dumps (Dict (convert_objectid_to_str d)) = Inr l) pre ls"
    and "json_dumps (Dict (convert_objectid_to_str bad)) = Inl e"
  shows "export_collection_to_ndjson world cfg coll (OUTPUT_DIR cfg) st =
           (Inl e,
            st\<lparr>files := (files st)
                  (path_join (OUTPUT_DIR cfg) (coll @ ''_'' @ TIMESTAMP cfg @ ''.ndjson'') \<mapsto>
                     concat (map (\<lambda>l. l @ [CHR 0x0A]) ls)),
               log := log st @ [Find (MONGO_DB cfg) coll]\<rparr>) \<and>
         fst (main world cfg st0) = Raised e \<and>
         files (snd (main world cfg st0))
           (path_join (OUTPUT_DIR cfg) (coll @ ''_'' @ TIMESTAMP cfg @ ''.ndjson'')) =
           Some (concat (map (\<lambda>l. l @ [CHR 0x0A]) ls)) \<and>
         uploads (log (snd (main world cfg st0))) = uploads (log st0) \<and>
         objects (snd (main world cfg st0)) = objects st0"
proof -
  let ?p = "path_join (OUTPUT_DIR cfg) (coll @ ''_'' @ TIMESTAMP cfg @ ''.ndjson'')"
  let ?st' = "st\<lparr>files := (files st)(?p \<mapsto> concat (map (\<lambda>l. l @ [CHR 0x0A]) ls)),
                 log := log st @ [Find (MONGO_DB cfg) coll]\<rparr>"
  have x: "export_collection_to_ndjson world cfg coll (OUTPUT_DIR cfg) st = (Inl e, ?st')"
    by (rule export_fail[OF assms(5,6,7)])
  have l: "export_loop world cfg (COLLECTIONS cfg) []
             (get_client cfg (ensure_output_dir (OUTPUT_DIR cfg) st0)) = (Inl e, ?st')"
    by (simp add: assms(3) export_loop_append assms(4) x)
  have ne: "COLLECTIONS cfg \<noteq> []" by (simp add: assms(3))
  have m: "main world cfg st0 = (Raised e, ?st')"
    by (simp add: main_valid[OF assms(1) ne assms(2)] l)
  from export_loop_frame[OF assms(4)] have
    "objects st = objects st0" "uploads (log st) = uploads (log st0)"
    by (simp_all add: setup_frame)
  with x m show ?thesis by (simp add: uploads_append)
qed

theorem serialization_failure_leaves_partial_file_witness:
  "json_dumps (Dict (convert_objectid_to_str [(''ids'', Arr [Oid (ObjectId ''65a2'')])])) =
     Inl (not_serializable ''ObjectId'') \<and>
   fst (main (sample_world broken_store no_fault) sample_config fresh) =
     Raised (not_serializable ''ObjectId'') \<and>
   files (snd (main (sample_world broken_store no_fault) sample_config fresh))
     ''/app/out/users_20240101T000000Z.ndjson'' =
     Some (''{'' @ [CHR 0x22] @ ''n'' @ [CHR 0x22] @ '': 1}'' @ [CHR 0x0A]) \<and>
   uploads (log (snd (main (sample_world broken_store no_fault) sample_config fresh))) = []"
proof -
  let ?w = "sample_world broken_store no_fault"
  let ?s2 = "get_client sample_config (ensure_output_dir (OUTPUT_DIR sample_config) fresh)"
  let ?l = "''{'' @ [CHR 0x22] @ ''n'' @ [CHR 0x22] @ '': 1}''"
  have c: "MONGO_DB sample_config \<noteq> []" "S3_BUCKET sample_config \<noteq> []"
    by (simp_all add: sample_config_def)
  have cs: "COLLECTIONS sample_config = [] @ ''users'' # [''orders'']"
    by (simp add: sample_config_def)
  have e: "export_loop ?w sample_config [] [] ?s2 = (Inr [], ?s2)" by simp
  have f: "find_all ?w ?s2 (MONGO_DB sample_config) ''users'' =
      Inr ([[(''n'', Integer 1)]] @ [(''ids'', Arr [Oid (ObjectId ''65a2'')])] # [[(''n'', Integer 3)]])"
    by (simp add: sample_world_def broken_store_def)
  have p: "list_all2 (\<lambda>d l. json_dumps (Dict (convert_objectid_to_str d)) = Inr l)
      [[(''n'', Integer 1)]] [?l]"
    by (simp add: encode_basestring_def escape_char_def str_int_def str_nat.simps digit_char_def)
  have b: "json_dumps (Dict (convert_objectid_to_str [(''ids'', Arr [Oid (ObjectId ''65a2'')])])) =
     Inl (not_serializable ''ObjectId'')"
    by simp
  have pj: "path_join (OUTPUT_DIR sample_config) (''users'' @ ''_'' @ TIMESTAMP sample_config @ ''.ndjson'') =
      ''/app/out/users_20240101T000000Z.ndjson''"
    by (simp add: sample_config_def path_join_def)
  have u0: "uploads (log fresh) = []" by (simp add: fresh_def)
  from serialization_failure_leaves_partial_file[OF c cs e f p b]
  have "fst (main ?w sample_config fresh) = Raised (not_serializable ''ObjectId'')"
       "files (snd (main ?w sample_config fresh)) ''/app/out/users_20240101T000000Z.ndjson'' =
          Some (concat (map (\<lambda>l. l @ [CHR 0x0A]) [?l]))"
       "uploads (log (snd (main ?w sample_config fresh))) = []"
    by (simp_all only: pj u0)
  with b show ?thesis by simp
qed




end
